theory Spec2Isabelle
  imports Main
begin

section \<open>JavaScript values used by the routes\<close>

text \<open>
  A JavaScript value that is a string or missing (\<open>undefined\<close>, \<open>null\<close>) is a
  \<open>string option\<close>. The routes test such values with \<open>if (v)\<close>: a missing value and the
  empty string are falsy, every other string is truthy.
\<close>

definition truthy :: "string option \<Rightarrow> bool" where
  "truthy v = (case v of None \<Rightarrow> False | Some s \<Rightarrow> s \<noteq> [])"

text \<open>
  \<^verbatim>\<open>var startsWith = function (source, str) { return source.slice(0, str.length) === str; };\<close>
  \<open>slice(0, n)\<close> keeps the first \<open>n\<close> characters (all of them when the string is shorter).
\<close>

definition startsWith :: "string \<Rightarrow> string \<Rightarrow> bool" where
  "startsWith source str = (take (length str) source = str)"

text \<open>
  \<^verbatim>\<open>var endsWith = function (source, str) { return source.slice(-str.length) === str; };\<close>
  \<open>slice(-n)\<close> keeps the last \<open>n\<close> characters for \<open>n > 0\<close> (all of them when the string
  is shorter); \<open>slice(-0)\<close> is \<open>slice(0)\<close>, the whole string.
\<close>

definition endsWith :: "string \<Rightarrow> string \<Rightarrow> bool" where
  "endsWith source str =
     ((if length str = 0 then source else drop (length source - length str) source) = str)"

text \<open>
  \<open>String.prototype.toLowerCase\<close> on the ASCII letters; an HTTP method is an ASCII token.
  Characters outside \<open>A\<close>..\<open>Z\<close> are kept.
\<close>

definition lower_char :: "char \<Rightarrow> char" where
  "lower_char c =
     (let n = (of_char c :: nat) in if 65 \<le> n \<and> n \<le> 90 then char_of (n + 32) else c)"

definition toLowerCase :: "string \<Rightarrow> string" where
  "toLowerCase s = map lower_char s"

text \<open>An \<open>Error\<close> object: its message and the \<open>status\<close> property the routes set on it.\<close>

record js_error =
  message :: string
  status :: "nat option"

text \<open>A document of the \<open>application\<close> collection, as the routes read it.\<close>

record application =
  app_id :: string
  app_name :: "string option"
  app_prefix :: string
  app_host :: "string option"
  app_timeCreated :: nat

text \<open>
  The body of \<open>POST /applications\<close>: \<open>prefix\<close>, \<open>host\<close> and the optional \<open>roles\<close>, an array in
  the shape the ACL's \<open>allow\<close> takes: \<open>{roles, allows: [{resources, permissions}]}\<close>. The
  \<open>resources\<close> of an allow entry are an array of strings or one string.
\<close>

datatype js_resources = Arr "string list" | Str string

record allow_entry =
  allow_resources :: js_resources
  allow_permissions :: "string list"

record role_entry =
  role_roles :: string
  role_allows :: "allow_entry list"

record post_body =
  post_prefix :: "string option"
  post_host :: "string option"
  post_roles :: "role_entry list option"

text \<open>The summary \<open>POST /applications\<close> answers with.\<close>

record summary =
  sum_id :: string
  sum_prefix :: string
  sum_host :: "string option"
  sum_timeCreated :: nat

text \<open>
  \<open>PUT /applications/:applicationId\<close>: the id of the path, the body fields the handler
  reads, the \<open>$set\<close> document it builds and the options it passes.
\<close>

record put_request =
  put_applicationId :: "string option"
  put_name :: "string option"
  put_prefix :: "string option"
  put_host :: "string option"

record update_set =
  set_name :: "string option"
  set_prefix :: "string option"
  set_host :: "string option"

record update_options =
  opt_new :: bool
  opt_runValidators :: bool

text \<open>
  What a route does to its collaborators, in the order of the calls: the queries to the
  application model and to the ACL, the lines given to the ACL's logger, and the request
  handed to the proxy (\<open>target\<close>, \<open>ignorePath\<close>, \<open>changeOrigin\<close>).
\<close>

datatype effect =
    FindByPrefix string
  | IsAllowed string string string
  | AllowedPermissions string string
  | LoggerDebug string
  | ProxyWeb string bool bool
  | Create string string
  | AclAllow "role_entry list"
  | FindOneAndUpdate string update_set update_options

text \<open>
  How a route ends: \<open>next(err)\<close>, \<open>res.json(v)\<close>, the backend's response piped back, or an
  exception thrown out of the handler.
\<close>

datatype 'a outcome = Next js_error | Json 'a | Piped | Throws string

section \<open>The proxy route \<open>router.all('/:prefix*')\<close>\<close>

text \<open>
  The request as the handler reads it: \<open>req.params.prefix\<close>, \<open>req.params[0]\<close> (the rest of
  the path, with its leading slash), \<open>req.method\<close>, \<open>req._parsedUrl.search\<close> and
  \<open>req.user.username\<close>.
\<close>

record request =
  params_prefix :: "string option"
  params_0 :: string
  req_method :: string
  parsedUrl_search :: "string option"
  user_username :: string

text \<open>
  The collaborators of the handler, which are not part of the route: the application
  model's \<open>findByPrefix\<close>, the ACL's \<open>isAllowed\<close> and \<open>allowedPermissions\<close> (the latter
  already rendered by \<open>util.inspect\<close>), whether the ACL has a logger, and the transport of
  \<open>proxy.web\<close>, which gives an error when the backend cannot be reached.
\<close>

record gateway =
  findByPrefix :: "string \<Rightarrow> js_error + application option"
  acl_isAllowed :: "string \<Rightarrow> string \<Rightarrow> string \<Rightarrow> js_error + bool"
  acl_allowedPermissions :: "string \<Rightarrow> string \<Rightarrow> string"
  acl_logger :: bool
  proxy_web :: "string \<Rightarrow> js_error option"

text \<open>
  Lines 81 to 87: \<open>http://\<close> is put in front of a host that does not start with \<open>http\<close>, then
  one trailing slash is cut.
\<close>

definition normalize_host :: "string \<Rightarrow> string" where
  "normalize_host host0 =
     (let host1 = (if \<not> startsWith host0 ''http'' then ''http://'' @ host0 else host0)
      in if endsWith host1 ''/'' then take (length host1 - 1) host1 else host1)"

definition debug :: "gateway \<Rightarrow> string \<Rightarrow> effect list" where
  "debug g line = (if acl_logger g then [LoggerDebug line] else [])"

text \<open>Lines 109 to 128: the branch taken when the ACL allows the request.\<close>

definition forward :: "gateway \<Rightarrow> request \<Rightarrow> string \<Rightarrow> string \<Rightarrow> string \<Rightarrow> string
    \<Rightarrow> unit outcome \<times> effect list" where
  "forward g req host action resource userId =
     (let host1 = host @ params_0 req;
          host2 = (if truthy (parsedUrl_search req) then host1 @ the (parsedUrl_search req)
                   else host1);
          effects = debug g (''Allowed '' @ action @ '' on '' @ resource @ '' by user '' @ userId)
                    @ [ProxyWeb host2 True True]
      in case proxy_web g host2 of
           Some err \<Rightarrow> (Next (err\<lparr>status := Some 503\<rparr>), effects)
         | None \<Rightarrow> (Piped, effects))"

text \<open>Lines 97 to 107: the branch taken when the ACL answers \<open>false\<close>.\<close>

definition deny :: "gateway \<Rightarrow> string \<Rightarrow> string \<Rightarrow> string \<Rightarrow> unit outcome \<times> effect list" where
  "deny g action resource userId =
     (Next \<lparr>message = ''Insufficient permissions to access resource'', status = Some 403\<rparr>,
      debug g (''Not allowed '' @ action @ '' on '' @ resource @ '' by user '' @ userId)
      @ [AllowedPermissions action resource]
      @ debug g (''Allowed permissions: '' @ acl_allowedPermissions g action resource))"

text \<open>Lines 132 to 140: the application has no host.\<close>

definition undefined_host :: "application \<Rightarrow> string \<Rightarrow> js_error" where
  "undefined_host a prefix =
     (let appName = (if \<not> truthy (app_name a) then prefix
                     else the (app_name a) @ '' ('' @ prefix @ '')'')
      in \<lparr>message = ''It seems that the application '' @ appName @ '' has an undefined host.'',
          status = Some 400\<rparr>)"

definition proxy_route :: "gateway \<Rightarrow> request \<Rightarrow> unit outcome \<times> effect list" where
  "proxy_route g req =
     (if truthy (params_prefix req) then
        (let prefix = the (params_prefix req) in
         case findByPrefix g prefix of
           Inl err \<Rightarrow> (Next err, [FindByPrefix prefix])
         | Inr None \<Rightarrow>
             (Next \<lparr>message = ''No application found with the given prefix: '' @ prefix,
                    status = Some 400\<rparr>, [FindByPrefix prefix])
         | Inr (Some a) \<Rightarrow>
             if truthy (app_host a) then
               (let host = normalize_host (the (app_host a));
                    resource = prefix @ params_0 req;
                    action = toLowerCase (req_method req);
                    userId = user_username req
                in case acl_isAllowed g userId resource action of
                     Inl err \<Rightarrow>
                       (Next err, [FindByPrefix prefix, IsAllowed userId resource action])
                   | Inr allowed \<Rightarrow>
                       (let (out, effects) =
                              (if allowed = False then deny g action resource userId
                               else forward g req host action resource userId)
                        in (out, [FindByPrefix prefix, IsAllowed userId resource action]
                                 @ effects)))
             else (Next (undefined_host a prefix), [FindByPrefix prefix]))
      else (Next \<lparr>message = ''You must provide a valid prefix!'', status = Some 400\<rparr>, []))"

text \<open>The ACL queries and the proxied targets among the effects of a run.\<close>

fun acl_queries :: "effect list \<Rightarrow> (string \<times> string \<times> string) list" where
  "acl_queries [] = []"
| "acl_queries (IsAllowed u r a # es) = (u, r, a) # acl_queries es"
| "acl_queries (e # es) = acl_queries es"

fun proxied :: "effect list \<Rightarrow> string list" where
  "proxied [] = []"
| "proxied (ProxyWeb t i c # es) = t # proxied es"
| "proxied (e # es) = proxied es"

section \<open>The application routes\<close>

text \<open>
  The collaborators of \<open>routes/applications.js\<close>: the application model's \<open>create\<close> and
  \<open>findOneAndUpdate\<close> (the schema and the document store are not part of the routes) and the
  ACL's \<open>allow\<close>.
\<close>

record registry =
  model_create :: "string \<Rightarrow> string \<Rightarrow> js_error + application"
  model_findOneAndUpdate ::
    "string \<Rightarrow> update_set \<Rightarrow> update_options \<Rightarrow> js_error + application option"
  acl_allow :: "role_entry list \<Rightarrow> js_error option"

subsection \<open>\<open>router.post('/')\<close>\<close>

text \<open>
  Lines 138 to 140, the loop over one \<open>resources\<close> array:
  \<^verbatim>\<open>for (var i = 0; i < resources.length; i++) { resources[i] = req.body.prefix + resources[i]; }\<close>
  The arrays are those of the parsed JSON body, so no two allow entries share one array and
  the update in place of one entry leaves the others as they are.
\<close>

function prefix_resources :: "string \<Rightarrow> nat \<Rightarrow> string list \<Rightarrow> string list" where
  "prefix_resources prefix i resources =
     (if i < length resources
      then prefix_resources prefix (i + 1) (resources[i := prefix @ resources ! i])
      else resources)"
  by pat_completeness auto
termination
  by (relation "measure (\<lambda>(prefix, i, resources). length resources - i)") auto

text \<open>
  The same loop on one allow entry. When \<open>resources\<close> is a string, \<open>resources.length\<close> is its
  length and the assignment \<open>resources[i] = ...\<close> to a character of a primitive string throws a
  \<open>TypeError\<close> in strict mode (the file starts with \<open>'use strict'\<close>); the empty string runs
  no iteration.
\<close>

definition prefix_allow :: "string \<Rightarrow> allow_entry \<Rightarrow> string + allow_entry" where
  "prefix_allow prefix allow =
     (case allow_resources allow of
        Arr resources \<Rightarrow> Inr (allow\<lparr>allow_resources := Arr (prefix_resources prefix 0 resources)\<rparr>)
      | Str s \<Rightarrow> if 0 < length s then Inl ''TypeError'' else Inr allow)"

text \<open>\<open>role.allows.forEach\<close> and \<open>rolesArray.forEach\<close>: in order, stopping at an exception.\<close>

fun forEach_allows :: "string \<Rightarrow> allow_entry list \<Rightarrow> string + allow_entry list" where
  "forEach_allows prefix [] = Inr []"
| "forEach_allows prefix (allow # allows) =
     (case prefix_allow prefix allow of
        Inl e \<Rightarrow> Inl e
      | Inr allow' \<Rightarrow>
          (case forEach_allows prefix allows of
             Inl e \<Rightarrow> Inl e
           | Inr allows' \<Rightarrow> Inr (allow' # allows')))"

fun forEach_roles :: "string \<Rightarrow> role_entry list \<Rightarrow> string + role_entry list" where
  "forEach_roles prefix [] = Inr []"
| "forEach_roles prefix (role # roles) =
     (case forEach_allows prefix (role_allows role) of
        Inl e \<Rightarrow> Inl e
      | Inr allows' \<Rightarrow>
          (case forEach_roles prefix roles of
             Inl e \<Rightarrow> Inl e
           | Inr roles' \<Rightarrow> Inr (role\<lparr>role_allows := allows'\<rparr> # roles')))"

text \<open>
  The three steps of \<open>async.auto\<close> run in the order \<open>validate\<close>, \<open>application\<close>, \<open>roles\<close>;
  the final callback gives every error the status 400 and otherwise answers with the summary
  of the created application.
\<close>

definition post_applications :: "registry \<Rightarrow> post_body \<Rightarrow> summary outcome \<times> effect list" where
  "post_applications r body =
     (if \<not> truthy (post_prefix body) then
        (Next \<lparr>message = ''Prefix required!'', status = Some 400\<rparr>, [])
      else if \<not> truthy (post_host body) then
        (Next \<lparr>message = ''Host required!'', status = Some 400\<rparr>, [])
      else
        (let prefix = the (post_prefix body); host = the (post_host body) in
         case model_create r prefix host of
           Inl err \<Rightarrow> (Next (err\<lparr>status := Some 400\<rparr>), [Create prefix host])
         | Inr a \<Rightarrow>
             (let answer = Json \<lparr>sum_id = app_id a, sum_prefix = app_prefix a,
                                 sum_host = app_host a, sum_timeCreated = app_timeCreated a\<rparr>
              in case post_roles body of
                   None \<Rightarrow> (answer, [Create prefix host])
                 | Some rolesArray \<Rightarrow>
                     (case forEach_roles prefix rolesArray of
                        Inl e \<Rightarrow> (Throws e, [Create prefix host])
                      | Inr rolesArray' \<Rightarrow>
                          (case acl_allow r rolesArray' of
                             Some err \<Rightarrow>
                               (Next (err\<lparr>status := Some 400\<rparr>),
                                [Create prefix host, AclAllow rolesArray'])
                           | None \<Rightarrow> (answer, [Create prefix host, AclAllow rolesArray']))))))"

text \<open>The role arrays handed to the ACL's \<open>allow\<close> and the documents handed to \<open>create\<close>.\<close>

fun allowed_roles :: "effect list \<Rightarrow> role_entry list list" where
  "allowed_roles [] = []"
| "allowed_roles (AclAllow rs # es) = rs # allowed_roles es"
| "allowed_roles (e # es) = allowed_roles es"

fun created :: "effect list \<Rightarrow> (string \<times> string) list" where
  "created [] = []"
| "created (Create p h # es) = (p, h) # created es"
| "created (e # es) = created es"

text \<open>
  What the registration is said to store: every resource string of every allow entry with
  the prefix put in front of it, by plain concatenation, whether the entry gives its
  resources as an array or as one string; everything else as it was given.
\<close>

definition prefixed_allow :: "string \<Rightarrow> allow_entry \<Rightarrow> allow_entry" where
  "prefixed_allow prefix allow =
     allow\<lparr>allow_resources :=
       (case allow_resources allow of
          Arr resources \<Rightarrow> Arr (map (\<lambda>resource. prefix @ resource) resources)
        | Str resource \<Rightarrow> Str (prefix @ resource))\<rparr>"

definition prefixed_roles :: "string \<Rightarrow> role_entry list \<Rightarrow> role_entry list" where
  "prefixed_roles prefix roles =
     map (\<lambda>role. role\<lparr>role_allows := map (prefixed_allow prefix) (role_allows role)\<rparr>) roles"

text \<open>The resource strings of a role array, and the role arrays all of whose resources are arrays.\<close>

definition resource_strings :: "role_entry list \<Rightarrow> string list" where
  "resource_strings roles =
     concat (map (\<lambda>role.
       concat (map (\<lambda>allow. case allow_resources allow of
                                Arr resources \<Rightarrow> resources
                              | Str resource \<Rightarrow> [resource])
                 (role_allows role))) roles)"

definition array_resources :: "role_entry list \<Rightarrow> bool" where
  "array_resources roles =
     list_all (\<lambda>role.
       list_all (\<lambda>allow. case allow_resources allow of Arr resources \<Rightarrow> True | Str resource \<Rightarrow> False)
         (role_allows role)) roles"

declare prefix_resources.simps [simp del]

subsection \<open>\<open>router.put(applicationIdRoute)\<close>\<close>

definition put_update :: "put_request \<Rightarrow> update_set" where
  "put_update req =
     \<lparr>set_name = (if truthy (put_name req) then put_name req else None),
      set_prefix = (if truthy (put_prefix req) then put_prefix req else None),
      set_host = (if truthy (put_host req) then put_host req else None)\<rparr>"

definition put_application :: "registry \<Rightarrow> put_request \<Rightarrow> application outcome \<times> effect list" where
  "put_application r req =
     (if \<not> truthy (put_applicationId req) then
        (Next \<lparr>message = ''You must provide a valid application id'', status = Some 400\<rparr>, [])
      else
        (let applicationId = the (put_applicationId req);
             update = put_update req;
             options = \<lparr>opt_new = True, opt_runValidators = True\<rparr>
         in case model_findOneAndUpdate r applicationId update options of
              Inl err \<Rightarrow>
                (Next (err\<lparr>status := Some 403\<rparr>), [FindOneAndUpdate applicationId update options])
            | Inr None \<Rightarrow>
                (Next \<lparr>message = ''No application with the given application id exists.'',
                       status = Some 400\<rparr>,
                 [FindOneAndUpdate applicationId update options])
            | Inr (Some a) \<Rightarrow> (Json a, [FindOneAndUpdate applicationId update options])))"

text \<open>
  The status the route itself gives its outcome: the \<open>status\<close> of the error handed to
  \<open>next\<close>, 200 for \<open>res.json\<close>. A piped response carries the status of the backend, which
  the route does not set, and an exception carries none.
\<close>

fun outcome_status :: "'a outcome \<Rightarrow> nat option" where
  "outcome_status (Next err) = status err"
| "outcome_status (Json v) = Some 200"
| "outcome_status Piped = None"
| "outcome_status (Throws e) = None"

section \<open>The RBAC engine\<close>

text \<open>
  Modelled from the spec: the engine behind \<open>req.app.acl\<close> (\<open>isAllowed\<close>, role storage and
  role assignment) is an ACL library that is not among the sources. The definitions of this
  section follow section 4.2 of the specification: a role is a sequence of allow-rules, each
  a set of resources and a set of permissions, and a user holds a sequence of role names.
\<close>

record allow_rule =
  rule_resources :: "string list"
  rule_permissions :: "string list"

record rbac =
  role_rules :: "string \<Rightarrow> allow_rule list option"
  user_roles :: "string \<Rightarrow> string list"

datatype rbac_error = ValidationError | NotFoundError | ConflictError | ForbiddenError

text \<open>
  Modelled from the spec: "strip the resource path from the right at \<open>/\<close>-boundaries (drop the
  last segment)". Everything from the last slash on is dropped; a path without a slash
  becomes empty.
\<close>

definition strip_last_segment :: "string \<Rightarrow> string" where
  "strip_last_segment path = rev (drop 1 (dropWhile (\<lambda>c. c \<noteq> CHR ''/'') (rev path)))"

lemma length_strip_last_segment:
  assumes "strip_last_segment path \<noteq> []"
  shows "length (strip_last_segment path) < length path"
proof -
  define rest where "rest = dropWhile (\<lambda>c. c \<noteq> CHR ''/'') (rev path)"
  have stripped: "strip_last_segment path = rev (drop 1 rest)"
    by (simp add: strip_last_segment_def rest_def)
  have bound: "length rest \<le> length path"
    unfolding rest_def using length_dropWhile_le [of _ "rev path"] by simp
  from assms stripped obtain c cs where "rest = c # cs"
    by (cases rest) simp_all
  with bound stripped show ?thesis
    by simp
qed

text \<open>
  Modelled from the spec: the hierarchical resource-matching policy. "Exact string match
  always matches. If no exact match, progressively strip the resource path [...] and retry
  [...]. Stop when the path is empty."
\<close>

function hierarchical_match :: "string list \<Rightarrow> string \<Rightarrow> bool" where
  "hierarchical_match patterns path =
     (if path \<in> set patterns then True
      else (let parent = strip_last_segment path
            in if parent = [] then False else hierarchical_match patterns parent))"
  by pat_completeness auto
termination
  by (relation "measure (\<lambda>(patterns, path). length path)")
     (auto simp: length_strip_last_segment)

declare hierarchical_match.simps [simp del]

text \<open>
  Modelled from the spec: "\<open>action\<close> (case-insensitive) is a member of the rule's permission
  set or the rule's permission set contains the wildcard permission", the wildcard being
  \<open>*\<close>.
\<close>

definition permission_granted :: "string \<Rightarrow> string list \<Rightarrow> bool" where
  "permission_granted action permissions =
     (toLowerCase action \<in> set (map toLowerCase permissions) \<or> ''*'' \<in> set permissions)"

definition rule_matches :: "allow_rule \<Rightarrow> string \<Rightarrow> string \<Rightarrow> bool" where
  "rule_matches rule resource action =
     (permission_granted action (rule_permissions rule)
      \<and> hierarchical_match (rule_resources rule) resource)"

text \<open>
  Modelled from the spec: steps 1 to 3 of \<open>isAllowed\<close>. An unknown user holds no role; a role
  name without rules matches nothing.
\<close>

definition isAllowed :: "rbac \<Rightarrow> string \<Rightarrow> string \<Rightarrow> string \<Rightarrow> bool" where
  "isAllowed e userId resource action =
     list_ex (\<lambda>role. case role_rules e role of
                        None \<Rightarrow> False
                      | Some rules \<Rightarrow> list_ex (\<lambda>rule. rule_matches rule resource action) rules)
       (user_roles e userId)"

text \<open>
  Modelled from the spec: \<open>assignRoles(userId, roleNames)\<close> "fails with \<open>ValidationError\<close> if
  any \<open>roleNames\<close> entry does not correspond to an existing role (all-or-nothing)"; assigning
  is idempotent.
\<close>

definition assignRoles :: "rbac \<Rightarrow> string \<Rightarrow> string list \<Rightarrow> rbac_error + rbac" where
  "assignRoles e userId roleNames =
     (if list_ex (\<lambda>name. role_rules e name = None) roleNames then Inl ValidationError
      else Inr (e\<lparr>user_roles := (user_roles e)
                    (userId := user_roles e userId
                       @ filter (\<lambda>name. name \<notin> set (user_roles e userId)) (remdups roleNames))\<rparr>))"

text \<open>
  The sense of "path ancestor" the policy gives: \<open>A\<close> is a non-empty path and \<open>R\<close> continues
  it with a slash.
\<close>

definition path_ancestor :: "string \<Rightarrow> string \<Rightarrow> bool" where
  "path_ancestor A R = (A \<noteq> [] \<and> take (Suc (length A)) R = A @ ''/'')"

section \<open>The application collection\<close>

text \<open>
  Modelled from the spec: the application model (its schema, \<open>create\<close>, \<open>findByPrefix\<close> and
  \<open>findOneAndUpdate\<close>) is not among the sources. Prefix and host are unique (sections 3 and
  4.1 of the specification) and \<open>findByPrefix\<close> is an exact match. The host is stored as it is
  given: the repository's test "should POST an application correctly" posts the host
  \<open>localhost:3309\<close> and requires the answer's host to equal it, and the API comment of the
  route shows the same. The identifier and the time of a new document come from the store.
\<close>

definition collection_findByPrefix :: "application list \<Rightarrow> string \<Rightarrow> application option" where
  "collection_findByPrefix docs prefix = find (\<lambda>a. app_prefix a = prefix) docs"

definition collection_create ::
    "application list \<Rightarrow> string \<Rightarrow> nat \<Rightarrow> string \<Rightarrow> string \<Rightarrow> js_error + application" where
  "collection_create docs new_id now prefix host =
     (if list_ex (\<lambda>a. app_prefix a = prefix \<or> app_host a = Some host) docs
      then Inl \<lparr>message = ''duplicate key'', status = None\<rparr>
      else Inr \<lparr>app_id = new_id, app_name = None, app_prefix = prefix,
                 app_host = Some host, app_timeCreated = now\<rparr>)"

text \<open>
  Modelled from the spec: \<open>update\<close> "re-validates host shape and uniqueness if host or prefix
  change; fails with \<open>NotFoundError\<close> if id absent; fails with \<open>ConflictError\<close> on uniqueness
  violation". The store reports an absent id by the answer \<open>null\<close>, which the route turns
  into the error. The validator of the host's shape is a parameter.
\<close>

definition apply_update :: "update_set \<Rightarrow> application \<Rightarrow> application" where
  "apply_update u a =
     a\<lparr>app_name := (case set_name u of None \<Rightarrow> app_name a | Some n \<Rightarrow> Some n),
       app_prefix := (case set_prefix u of None \<Rightarrow> app_prefix a | Some p \<Rightarrow> p),
       app_host := (case set_host u of None \<Rightarrow> app_host a | Some h \<Rightarrow> Some h)\<rparr>"

definition collection_findOneAndUpdate ::
    "(string \<Rightarrow> bool) \<Rightarrow> application list \<Rightarrow> string \<Rightarrow> update_set \<Rightarrow> update_options
      \<Rightarrow> js_error + application option" where
  "collection_findOneAndUpdate isURL docs applicationId u options =
     (case find (\<lambda>a. app_id a = applicationId) docs of
        None \<Rightarrow> Inr None
      | Some a \<Rightarrow>
          (let a' = apply_update u a in
           if opt_runValidators options \<and> (case set_host u of None \<Rightarrow> False | Some h \<Rightarrow> \<not> isURL h)
           then Inl \<lparr>message = ''Validation failed'', status = None\<rparr>
           else if list_ex (\<lambda>b. app_id b \<noteq> applicationId
                                 \<and> (app_prefix b = app_prefix a' \<or> app_host b = app_host a')) docs
           then Inl \<lparr>message = ''duplicate key'', status = None\<rparr>
           else Inr (Some a')))"

section \<open>The deployment of the repository's tests\<close>

text \<open>
  The data of the test suite: the application \<open>gleaner\<close> at \<open>localhost:3309\<close>, the application
  \<open>prefix\<close> at \<open>http://myurl.com\<close>, the role \<open>gleanerUser\<close> with the four methods on
  \<open>gleaner/route1\<close>, held by \<open>user_asd\<close>. The role \<open>tester\<close> and its holder, an application without a host
  and one whose host begins with \<open>http\<close> without being a URL are added for the examples below.
\<close>

definition gleaner_app :: application where
  "gleaner_app = \<lparr>app_id = ''a1'', app_name = None, app_prefix = ''gleaner'',
                   app_host = Some ''localhost:3309'', app_timeCreated = 1\<rparr>"

definition myurl_app :: application where
  "myurl_app = \<lparr>app_id = ''a2'', app_name = None, app_prefix = ''prefix'',
                 app_host = Some ''http://myurl.com'', app_timeCreated = 2\<rparr>"

definition hostless_app :: application where
  "hostless_app = \<lparr>app_id = ''a3'', app_name = Some ''Gleaner App.'', app_prefix = ''nohost'',
                    app_host = None, app_timeCreated = 3\<rparr>"

definition httpserver_app :: application where
  "httpserver_app = \<lparr>app_id = ''a4'', app_name = None, app_prefix = ''plain'',
                      app_host = Some ''httpserver.com'', app_timeCreated = 4\<rparr>"

definition test_docs :: "application list" where
  "test_docs = [gleaner_app, myurl_app, hostless_app, httpserver_app]"

definition test_rbac :: rbac where
  "test_rbac =
     \<lparr>role_rules = (\<lambda>name.
         if name = ''gleanerUser'' then
           Some [\<lparr>rule_resources = [''gleaner/route1''],
                  rule_permissions = [''post'', ''get'', ''delete'', ''put'']\<rparr>]
         else if name = ''tester'' then
           Some [\<lparr>rule_resources = [''prefix/a'', ''plain'', ''gleaner/a''],
                  rule_permissions = [''get'']\<rparr>]
         else None),
      user_roles = (\<lambda>u. if u = ''user_asd'' then [''gleanerUser'']
                          else if u = ''tester_user'' then [''tester''] else [])\<rparr>"

definition test_gateway :: "rbac \<Rightarrow> (string \<Rightarrow> js_error option) \<Rightarrow> gateway" where
  "test_gateway e transport =
     \<lparr>findByPrefix = (\<lambda>prefix. Inr (collection_findByPrefix test_docs prefix)),
      acl_isAllowed = (\<lambda>userId resource action. Inr (isAllowed e userId resource action)),
      acl_allowedPermissions = (\<lambda>action resource. ''{}''),
      acl_logger = True,
      proxy_web = transport\<rparr>"

text \<open>The gateway over any collection of applications.\<close>

definition gateway_of ::
    "application list \<Rightarrow> rbac \<Rightarrow> (string \<Rightarrow> js_error option) \<Rightarrow> gateway" where
  "gateway_of docs e transport =
     \<lparr>findByPrefix = (\<lambda>prefix. Inr (collection_findByPrefix docs prefix)),
      acl_isAllowed = (\<lambda>userId resource action. Inr (isAllowed e userId resource action)),
      acl_allowedPermissions = (\<lambda>action resource. ''{}''),
      acl_logger = True,
      proxy_web = transport\<rparr>"

definition reachable :: "string \<Rightarrow> js_error option" where
  "reachable target = None"

definition refused :: "string \<Rightarrow> js_error option" where
  "refused target = Some \<lparr>message = ''connect ECONNREFUSED'', status = Some 500\<rparr>"

definition test_isURL :: "string \<Rightarrow> bool" where
  "test_isURL h = (CHR ''.'' \<in> set h \<or> CHR '':'' \<in> set h)"

definition test_registry :: "application list \<Rightarrow> registry" where
  "test_registry docs =
     \<lparr>model_create = collection_create docs ''a9'' 9,
      model_findOneAndUpdate = collection_findOneAndUpdate test_isURL docs,
      acl_allow = (\<lambda>roles. None)\<rparr>"

definition gleanerRoles :: "role_entry list" where
  "gleanerRoles =
     [\<lparr>role_roles = ''gleanerUser'',
       role_allows = [\<lparr>allow_resources = Arr [''/route1''],
                       allow_permissions = [''post'', ''get'', ''delete'', ''put'']\<rparr>]\<rparr>]"

text \<open>
  The same role with its resources given as one string, which the ACL's \<open>allow\<close> takes as
  well as an array.
\<close>

definition stringRoles :: "role_entry list" where
  "stringRoles =
     [\<lparr>role_roles = ''gleanerUser'',
       role_allows = [\<lparr>allow_resources = Str ''/route1'',
                       allow_permissions = [''post'', ''get'', ''delete'', ''put'']\<rparr>]\<rparr>]"

definition string_appData :: post_body where
  "string_appData = \<lparr>post_prefix = Some ''gleaner'', post_host = Some ''localhost:3309'',
                      post_roles = Some stringRoles\<rparr>"

definition gleaner_appData :: post_body where
  "gleaner_appData = \<lparr>post_prefix = Some ''gleaner'', post_host = Some ''localhost:3309'',
                       post_roles = Some gleanerRoles\<rparr>"

text \<open>
  The assertions of the test "should POST an application correctly" on the answer: status
  200, \<open>res.prefix\<close> equal to \<open>appData.prefix\<close> and \<open>res.host\<close> equal to \<open>appData.host\<close>.
\<close>

definition test_should_POST_an_application_correctly :: "registry \<Rightarrow> bool" where
  "test_should_POST_an_application_correctly r =
     (case fst (post_applications r gleaner_appData) of
        Json res \<Rightarrow> Some (sum_prefix res) = post_prefix gleaner_appData
                    \<and> sum_host res = post_host gleaner_appData
      | _ \<Rightarrow> False)"

definition proxy_request :: "string \<Rightarrow> string \<Rightarrow> string \<Rightarrow> string option \<Rightarrow> string \<Rightarrow> request" where
  "proxy_request method prefix rest search username =
     \<lparr>params_prefix = Some prefix, params_0 = rest, req_method = method,
      parsedUrl_search = search, user_username = username\<rparr>"

section \<open>The dispatcher, once the application is resolved\<close>

text \<open>
  With a truthy prefix, an application found for it and a truthy host, the handler reaches
  the ACL query; what follows depends on the answer only.
\<close>

lemma proxy_route_resolved:
  assumes "params_prefix req = Some p" and "p \<noteq> []"
    and "findByPrefix g p = Inr (Some a)" and "app_host a = Some h" and "h \<noteq> []"
  shows "proxy_route g req =
     (case acl_isAllowed g (user_username req) (p @ params_0 req) (toLowerCase (req_method req)) of
        Inl err \<Rightarrow>
          (Next err, [FindByPrefix p,
             IsAllowed (user_username req) (p @ params_0 req) (toLowerCase (req_method req))])
      | Inr allowed \<Rightarrow>
          (fst (if allowed
                then forward g req (normalize_host h) (toLowerCase (req_method req))
                       (p @ params_0 req) (user_username req)
                else deny g (toLowerCase (req_method req)) (p @ params_0 req) (user_username req)),
           [FindByPrefix p,
            IsAllowed (user_username req) (p @ params_0 req) (toLowerCase (req_method req))]
           @ snd (if allowed
                  then forward g req (normalize_host h) (toLowerCase (req_method req))
                         (p @ params_0 req) (user_username req)
                  else deny g (toLowerCase (req_method req)) (p @ params_0 req)
                         (user_username req))))"
  using assms
  by (simp add: proxy_route_def truthy_def Let_def split: sum.split prod.split)

lemma proxied_debug [simp]: "proxied (debug g line @ es) = proxied es"
  by (simp add: debug_def)

lemma acl_queries_debug [simp]: "acl_queries (debug g line @ es) = acl_queries es"
  by (simp add: debug_def)

lemma proxied_forward:
  "proxied (snd (forward g req host action resource userId)) =
     [host @ params_0 req @ (case parsedUrl_search req of None \<Rightarrow> [] | Some q \<Rightarrow> q)]"
  by (simp add: forward_def truthy_def Let_def split: option.split)

lemma proxied_deny: "proxied (snd (deny g action resource userId)) = []"
  by (simp add: deny_def debug_def)

lemma acl_queries_forward: "acl_queries (snd (forward g req host action resource userId)) = []"
  by (simp add: forward_def Let_def split: option.split)

lemma acl_queries_deny: "acl_queries (snd (deny g action resource userId)) = []"
  by (simp add: deny_def debug_def)

lemma acl_queries_resolved:
  assumes "params_prefix req = Some p" and "p \<noteq> []"
    and "findByPrefix g p = Inr (Some a)" and "app_host a = Some h" and "h \<noteq> []"
  shows "acl_queries (snd (proxy_route g req)) =
     [(user_username req, p @ params_0 req, toLowerCase (req_method req))]"
  using assms
  by (simp add: proxy_route_resolved acl_queries_forward acl_queries_deny split: sum.split)

text \<open>Evaluations used by the examples.\<close>

lemma lower_GET: "toLowerCase ''GET'' = ''get''"
  by code_simp

lemma find_gleaner:
  "findByPrefix (test_gateway e transport) ''gleaner'' = Inr (Some gleaner_app)"
  by (simp add: test_gateway_def collection_findByPrefix_def test_docs_def gleaner_app_def)

lemma find_myurl:
  "findByPrefix (test_gateway e transport) ''prefix'' = Inr (Some myurl_app)"
  by (simp add: test_gateway_def collection_findByPrefix_def test_docs_def gleaner_app_def
      myurl_app_def)

lemma find_hostless:
  "findByPrefix (test_gateway e transport) ''nohost'' = Inr (Some hostless_app)"
  by (simp add: test_gateway_def collection_findByPrefix_def test_docs_def gleaner_app_def
      myurl_app_def hostless_app_def)

lemma find_httpserver:
  "findByPrefix (test_gateway e transport) ''plain'' = Inr (Some httpserver_app)"
  by (simp add: test_gateway_def collection_findByPrefix_def test_docs_def gleaner_app_def
      myurl_app_def hostless_app_def httpserver_app_def)

lemma normalize_gleaner: "normalize_host ''localhost:3309'' = ''http://localhost:3309''"
  by code_simp

lemma user_asd_route1:
  "acl_isAllowed (test_gateway test_rbac transport) ''user_asd'' ''gleaner/route1'' ''get''
     = Inr True"
  unfolding test_gateway_def by simp code_simp

lemma user_asd_route2:
  "acl_isAllowed (test_gateway test_rbac transport) ''user_asd'' ''gleaner/route2'' ''get''
     = Inr False"
  unfolding test_gateway_def by simp code_simp

section \<open>The normalization of the host\<close>

lemma startsWith_iff: "startsWith s t = (\<exists>ys. s = t @ ys)"
proof
  assume "startsWith s t"
  then have "s = t @ drop (length t) s"
    unfolding startsWith_def by (metis append_take_drop_id)
  then show "\<exists>ys. s = t @ ys" ..
next
  assume "\<exists>ys. s = t @ ys"
  then show "startsWith s t"
    by (auto simp: startsWith_def)
qed

lemma endsWith_iff: "t \<noteq> [] \<Longrightarrow> endsWith s t = (\<exists>xs. s = xs @ t)"
proof
  assume "t \<noteq> []" and "endsWith s t"
  then have "s = take (length s - length t) s @ t"
    unfolding endsWith_def by (metis append_take_drop_id length_0_conv)
  then show "\<exists>xs. s = xs @ t" ..
next
  assume "t \<noteq> []" and "\<exists>xs. s = xs @ t"
  then show "endsWith s t"
    by (auto simp: endsWith_def)
qed

lemma normalize_host_cases:
  "normalize_host h =
     (let host = (if startsWith h ''http'' then h else ''http://'' @ h)
      in if endsWith host ''/'' then butlast host else host)"
  by (simp add: normalize_host_def Let_def butlast_conv_take)

lemma normalize_host_starts_with_http: "startsWith (normalize_host h) ''http''"
proof -
  define host where "host = (if startsWith h ''http'' then h else ''http://'' @ h)"
  have "\<exists>ys. host = ''http'' @ ys"
  proof (cases "startsWith h ''http''")
    case True
    then show ?thesis
      by (simp add: host_def startsWith_iff)
  next
    case False
    then show ?thesis
      by (simp add: host_def)
  qed
  then obtain ys where host: "host = ''http'' @ ys" ..
  show ?thesis
  proof (cases "endsWith host ''/''")
    case True
    then obtain xs where "host = xs @ ''/''"
      by (auto simp: endsWith_iff)
    with host have "ys \<noteq> []" and "butlast host = ''http'' @ butlast ys"
      by (auto simp: butlast_append)
    with True show ?thesis
      unfolding normalize_host_cases host_def [symmetric] by (simp add: startsWith_iff)
  next
    case False
    with host show ?thesis
      unfolding normalize_host_cases host_def [symmetric] by (simp add: startsWith_iff)
  qed
qed

lemma normalize_host_no_trailing_slash:
  assumes "h \<noteq> []" and "h \<noteq> ''/''" and "\<not> endsWith h ''//''"
  shows "\<not> endsWith (normalize_host h) ''/''"
proof
  define host where "host = (if startsWith h ''http'' then h else ''http://'' @ h)"
  assume trailing: "endsWith (normalize_host h) ''/''"
  then have "endsWith host ''/''"
    unfolding normalize_host_cases host_def [symmetric] by (simp add: Let_def split: if_splits)
  then obtain xs where xs: "host = xs @ ''/''"
    by (auto simp: endsWith_iff)
  with trailing have "endsWith xs ''/''"
    unfolding normalize_host_cases host_def [symmetric]
    by (simp add: Let_def endsWith_iff)
  then obtain zs where "xs = zs @ ''/''"
    by (auto simp: endsWith_iff)
  with xs have double: "host = zs @ ''//''"
    by simp
  show False
  proof (cases "startsWith h ''http''")
    case True
    with double assms(3) show False
      by (simp add: host_def endsWith_iff)
  next
    case False
    with double have eq: "''http://'' @ h = zs @ ''//''"
      by (simp add: host_def)
    from assms(1) obtain h' c where h: "h = h' @ [c]"
      by (cases h rule: rev_cases) auto
    show False
    proof (cases h' rule: rev_cases)
      case Nil
      with eq h assms(2) show False
        by auto
    next
      case (snoc h'' d)
      with eq h have "h = h'' @ ''//''"
        by auto
      with assms(3) show False
        by (simp add: endsWith_iff)
    qed
  qed
qed

lemma endsWith_slash: "endsWith s ''/'' = (s \<noteq> [] \<and> last s = CHR ''/'')"
proof (cases s rule: rev_cases)
  case Nil
  then show ?thesis
    by (simp add: endsWith_def)
next
  case (snoc xs x)
  then show ?thesis
    by (simp add: endsWith_def)
qed

text \<open>
  The normalization written out: the host with \<open>http://\<close> in front unless its first four
  characters are \<open>http\<close>, then less its last character when that is a slash.
\<close>

lemma startsWith_http: "startsWith s ''http'' = (take 4 s = ''http'')"
proof -
  have "length ''http'' = 4"
    by simp
  then show ?thesis
    by (simp only: startsWith_def)
qed

lemma normalize_host_written_out:
  "normalize_host h =
     (let host = (if take 4 h = ''http'' then h else ''http://'' @ h)
      in if host \<noteq> [] \<and> last host = CHR ''/'' then butlast host else host)"
  by (simp only: normalize_host_cases endsWith_slash startsWith_http)

section \<open>Forwarding\<close>

lemma tester_gleaner_a_b:
  "acl_isAllowed (test_gateway test_rbac transport) ''tester_user'' ''gleaner/a/b'' ''get''
     = Inr True"
  unfolding test_gateway_def by simp code_simp

lemma tester_prefix_a_b:
  "acl_isAllowed (test_gateway test_rbac transport) ''tester_user'' ''prefix/a/b'' ''get''
     = Inr True"
  unfolding test_gateway_def by simp code_simp

text \<open>
  C1, as stated, fails at a registered host without a scheme: the application \<open>gleaner\<close> is
  registered with the host \<open>localhost:3309\<close>, and the allowed request for
  \<open>gleaner + "/a/b?x=1"\<close> is forwarded to \<open>http://localhost:3309/a/b?x=1\<close>, which is not the
  registered host followed by \<open>/a/b?x=1\<close>.
\<close>

theorem proxy_target_of_host_without_scheme:
  "findByPrefix (test_gateway test_rbac reachable) ''gleaner'' = Inr (Some gleaner_app)
   \<and> app_host gleaner_app = Some ''localhost:3309''
   \<and> acl_isAllowed (test_gateway test_rbac reachable) ''tester_user'' ''gleaner/a/b'' ''get''
       = Inr True
   \<and> proxied (snd (proxy_route (test_gateway test_rbac reachable)
        (proxy_request ''GET'' ''gleaner'' ''/a/b'' (Some ''?x=1'') ''tester_user'')))
       = [''http://localhost:3309/a/b?x=1'']
   \<and> ''http://localhost:3309/a/b?x=1'' \<noteq> ''localhost:3309'' @ ''/a/b?x=1''"
proof -
  have "proxied (snd (proxy_route (test_gateway test_rbac reachable)
        (proxy_request ''GET'' ''gleaner'' ''/a/b'' (Some ''?x=1'') ''tester_user'')))
       = [''http://localhost:3309/a/b?x=1'']"
    by code_simp
  moreover have "app_host gleaner_app = Some ''localhost:3309''"
    by (simp add: gleaner_app_def)
  ultimately show ?thesis
    using find_gleaner [of test_rbac reachable] tester_gleaner_a_b [of reachable] by simp
qed

text \<open>
  C1, amended. When the prefix is registered with a host and the ACL allows the user, the
  one request handed to the proxy has as target the normalized host, then the sub-path
  after the prefix, then the query string as it came (with its question mark) when there is
  one. The normalized host is the registered host with \<open>http://\<close> put in front unless its
  first four characters are \<open>http\<close>, then less its last character when that is a slash. So
  the request for \<open>prefix + "/a/b?x=1"\<close> against a registered host \<open>h\<close> without a trailing
  slash goes to \<open>h + "/a/b?x=1"\<close> when \<open>h\<close> starts with \<open>http\<close>, and to
  \<open>"http://" + h + "/a/b?x=1"\<close> when it does not.
\<close>

theorem proxy_target_is_host_subpath_query:
  assumes "params_prefix req = Some p" and "p \<noteq> []"
    and "findByPrefix g p = Inr (Some a)" and "app_host a = Some h" and "h \<noteq> []"
    and "acl_isAllowed g (user_username req) (p @ params_0 req) (toLowerCase (req_method req))
           = Inr True"
  shows "proxied (snd (proxy_route g req)) =
           [(let host = (if take 4 h = ''http'' then h else ''http://'' @ h)
             in if last host = CHR ''/'' then butlast host else host)
            @ params_0 req
            @ (case parsedUrl_search req of None \<Rightarrow> [] | Some q \<Rightarrow> q)]
         \<and> (last h \<noteq> CHR ''/'' \<longrightarrow>
              proxied (snd (proxy_route g req)) =
                [(if take 4 h = ''http'' then h else ''http://'' @ h)
                 @ params_0 req
                 @ (case parsedUrl_search req of None \<Rightarrow> [] | Some q \<Rightarrow> q)])"
proof -
  from assms(5) have "normalize_host h =
      (let host = (if take 4 h = ''http'' then h else ''http://'' @ h)
       in if last host = CHR ''/'' then butlast host else host)"
    by (simp add: normalize_host_written_out Let_def)
  moreover from assms have "proxied (snd (proxy_route g req)) =
      [normalize_host h @ params_0 req
         @ (case parsedUrl_search req of None \<Rightarrow> [] | Some q \<Rightarrow> q)]"
    by (simp add: proxy_route_resolved proxied_forward)
  ultimately show ?thesis
    using assms(5) by (simp add: Let_def)
qed

theorem proxy_target_example:
  "proxied (snd (proxy_route (test_gateway test_rbac reachable)
      (proxy_request ''GET'' ''gleaner'' ''/a/b'' (Some ''?x=1'') ''tester_user'')))
     = [''http://'' @ ''localhost:3309'' @ ''/a/b?x=1'']
   \<and> proxied (snd (proxy_route (test_gateway test_rbac reachable)
      (proxy_request ''GET'' ''prefix'' ''/a/b'' (Some ''?x=1'') ''tester_user'')))
     = [''http://myurl.com'' @ ''/a/b?x=1'']"
proof -
  let ?g = "test_gateway test_rbac reachable"
  let ?gleaner = "proxy_request ''GET'' ''gleaner'' ''/a/b'' (Some ''?x=1'') ''tester_user''"
  let ?myurl = "proxy_request ''GET'' ''prefix'' ''/a/b'' (Some ''?x=1'') ''tester_user''"
  have prefixes: "params_prefix ?gleaner = Some ''gleaner''" "params_prefix ?myurl = Some ''prefix''"
    by (simp_all add: proxy_request_def)
  have hosts: "app_host gleaner_app = Some ''localhost:3309''"
      "app_host myurl_app = Some ''http://myurl.com''"
    by (simp_all add: gleaner_app_def myurl_app_def)
  have allowed_gleaner: "acl_isAllowed ?g (user_username ?gleaner)
      (''gleaner'' @ params_0 ?gleaner) (toLowerCase (req_method ?gleaner)) = Inr True"
    using tester_gleaner_a_b [of reachable] by (simp add: proxy_request_def lower_GET)
  have allowed_myurl: "acl_isAllowed ?g (user_username ?myurl)
      (''prefix'' @ params_0 ?myurl) (toLowerCase (req_method ?myurl)) = Inr True"
    using tester_prefix_a_b [of reachable] by (simp add: proxy_request_def lower_GET)
  from proxy_target_is_host_subpath_query
    [OF prefixes(1) _ find_gleaner hosts(1) _ allowed_gleaner]
  have "proxied (snd (proxy_route ?g ?gleaner)) = [''http://localhost:3309/a/b?x=1'']"
    by (simp add: proxy_request_def)
  moreover from proxy_target_is_host_subpath_query
    [OF prefixes(2) _ find_myurl hosts(2) _ allowed_myurl]
  have "proxied (snd (proxy_route ?g ?myurl)) = [''http://myurl.com/a/b?x=1'']"
    by (simp add: proxy_request_def)
  ultimately show ?thesis
    by simp
qed

section \<open>Authorization\<close>

text \<open>
  C2. For a proxied request that reaches the ACL, the one query to \<open>isAllowed\<close> names the
  user, the resource made of the prefix immediately followed by the rest of the path (with
  its leading slash, nothing escaped), and the HTTP method in lower case.
\<close>

theorem authorization_query_is_prefix_subpath_method:
  assumes "params_prefix req = Some p" and "p \<noteq> []"
    and "findByPrefix g p = Inr (Some a)" and "app_host a = Some h" and "h \<noteq> []"
  shows "acl_queries (snd (proxy_route g req)) =
     [(user_username req, p @ params_0 req, map lower_char (req_method req))]"
  using assms by (simp add: acl_queries_resolved toLowerCase_def)

theorem authorization_query_example:
  "acl_queries (snd (proxy_route (test_gateway test_rbac reachable)
      (proxy_request ''GET'' ''gleaner'' ''/route1'' None ''user_asd'')))
   = [(''user_asd'', ''gleaner/route1'', ''get'')]"
proof -
  let ?req = "proxy_request ''GET'' ''gleaner'' ''/route1'' None ''user_asd''"
  have prefix: "params_prefix ?req = Some ''gleaner''"
    by (simp add: proxy_request_def)
  have host: "app_host gleaner_app = Some ''localhost:3309''"
    by (simp add: gleaner_app_def)
  from authorization_query_is_prefix_subpath_method [OF prefix _ find_gleaner host]
  show ?thesis
    using lower_GET by (simp add: proxy_request_def toLowerCase_def)
qed

text \<open>
  C4. When the application is resolved and the ACL answers \<open>false\<close>, the handler ends with
  an error of status 403 whose message is "Insufficient permissions to access resource", and
  nothing is handed to the proxy.
\<close>

theorem denied_request_is_403_and_not_forwarded:
  assumes "params_prefix req = Some p" and "p \<noteq> []"
    and "findByPrefix g p = Inr (Some a)" and "app_host a = Some h" and "h \<noteq> []"
    and "acl_isAllowed g (user_username req) (p @ params_0 req) (toLowerCase (req_method req))
           = Inr False"
  shows "fst (proxy_route g req) =
           Next \<lparr>message = ''Insufficient permissions to access resource'', status = Some 403\<rparr>
         \<and> proxied (snd (proxy_route g req)) = []"
  using assms by (simp add: proxy_route_resolved proxied_deny) (simp add: deny_def)

theorem denied_request_example:
  "fst (proxy_route (test_gateway test_rbac reachable)
      (proxy_request ''GET'' ''gleaner'' ''/route2'' None ''user_asd''))
     = Next \<lparr>message = ''Insufficient permissions to access resource'', status = Some 403\<rparr>
   \<and> proxied (snd (proxy_route (test_gateway test_rbac reachable)
      (proxy_request ''GET'' ''gleaner'' ''/route2'' None ''user_asd''))) = []"
proof -
  let ?g = "test_gateway test_rbac reachable"
  let ?req = "proxy_request ''GET'' ''gleaner'' ''/route2'' None ''user_asd''"
  have prefix: "params_prefix ?req = Some ''gleaner''"
    by (simp add: proxy_request_def)
  have host: "app_host gleaner_app = Some ''localhost:3309''"
    by (simp add: gleaner_app_def)
  have denied: "acl_isAllowed ?g (user_username ?req) (''gleaner'' @ params_0 ?req)
      (toLowerCase (req_method ?req)) = Inr False"
    using user_asd_route2 [of reachable] by (simp add: proxy_request_def lower_GET)
  from denied_request_is_403_and_not_forwarded [OF prefix _ find_gleaner host _ denied]
  show ?thesis
    by simp
qed

text \<open>
  C5. When the request is allowed and the transport to the backend fails, whatever the
  error of the transport is and whatever status it carried, the handler ends with that error
  under the status 503.
\<close>

theorem transport_failure_is_503:
  assumes "params_prefix req = Some p" and "p \<noteq> []"
    and "findByPrefix g p = Inr (Some a)" and "app_host a = Some h" and "h \<noteq> []"
    and "acl_isAllowed g (user_username req) (p @ params_0 req) (toLowerCase (req_method req))
           = Inr True"
    and "proxy_web g (normalize_host h @ params_0 req
           @ (case parsedUrl_search req of None \<Rightarrow> [] | Some q \<Rightarrow> q)) = Some err"
  shows "fst (proxy_route g req) = Next (err\<lparr>status := Some 503\<rparr>)
         \<and> outcome_status (fst (proxy_route g req)) = Some 503"
proof -
  have "fst (forward g req (normalize_host h) (toLowerCase (req_method req))
          (p @ params_0 req) (user_username req)) = Next (err\<lparr>status := Some 503\<rparr>)"
    using assms(7) by (cases "parsedUrl_search req") (auto simp: forward_def truthy_def Let_def)
  with assms show ?thesis
    by (simp add: proxy_route_resolved)
qed

theorem transport_failure_example:
  "fst (proxy_route (test_gateway test_rbac refused)
      (proxy_request ''GET'' ''gleaner'' ''/route1'' None ''user_asd''))
     = Next \<lparr>message = ''connect ECONNREFUSED'', status = Some 503\<rparr>"
proof -
  let ?g = "test_gateway test_rbac refused"
  let ?req = "proxy_request ''GET'' ''gleaner'' ''/route1'' None ''user_asd''"
  have prefix: "params_prefix ?req = Some ''gleaner''"
    by (simp add: proxy_request_def)
  have host: "app_host gleaner_app = Some ''localhost:3309''"
    by (simp add: gleaner_app_def)
  have allowed: "acl_isAllowed ?g (user_username ?req) (''gleaner'' @ params_0 ?req)
      (toLowerCase (req_method ?req)) = Inr True"
    using user_asd_route1 [of refused] by (simp add: proxy_request_def lower_GET)
  have failed: "proxy_web ?g (normalize_host ''localhost:3309'' @ params_0 ?req
      @ (case parsedUrl_search ?req of None \<Rightarrow> [] | Some q \<Rightarrow> q))
      = Some \<lparr>message = ''connect ECONNREFUSED'', status = Some 500\<rparr>"
    by (simp add: test_gateway_def refused_def)
  from transport_failure_is_503 [OF prefix _ find_gleaner host _ allowed failed]
  show ?thesis
    by simp
qed

section \<open>An application without a host\<close>

text \<open>
  C8. When the prefix resolves to an application whose host is missing or empty, the handler
  ends with an error of status 400 whose message names the application: its name followed by
  the prefix in parentheses, or the prefix alone when the application has no name. The ACL is
  not asked and nothing is forwarded.
\<close>

theorem undefined_host_is_400_naming_the_application:
  assumes "params_prefix req = Some p" and "p \<noteq> []"
    and "findByPrefix g p = Inr (Some a)" and "\<not> truthy (app_host a)"
  shows "fst (proxy_route g req) =
           Next \<lparr>message = ''It seems that the application ''
                   @ (case app_name a of
                        None \<Rightarrow> p
                      | Some n \<Rightarrow> if n = [] then p else n @ '' ('' @ p @ '')'')
                   @ '' has an undefined host.'',
                 status = Some 400\<rparr>
         \<and> acl_queries (snd (proxy_route g req)) = []
         \<and> proxied (snd (proxy_route g req)) = []"
  using assms
  by (simp add: proxy_route_def undefined_host_def truthy_def Let_def split: option.splits)

theorem undefined_host_example:
  "fst (proxy_route (test_gateway test_rbac reachable)
      (proxy_request ''GET'' ''nohost'' ''/route1'' None ''user_asd''))
     = Next \<lparr>message =
          ''It seems that the application Gleaner App. (nohost) has an undefined host.'',
        status = Some 400\<rparr>"
proof -
  let ?req = "proxy_request ''GET'' ''nohost'' ''/route1'' None ''user_asd''"
  have prefix: "params_prefix ?req = Some ''nohost''"
    by (simp add: proxy_request_def)
  have hostless: "\<not> truthy (app_host hostless_app)"
    by (simp add: hostless_app_def truthy_def)
  from undefined_host_is_400_naming_the_application [OF prefix _ find_hostless hostless]
  show ?thesis
    by (simp add: hostless_app_def)
qed

section \<open>The scheme test of the dispatcher\<close>

text \<open>
  C9. The dispatcher only looks at the first four characters of the stored host: for every
  host that starts with \<open>http\<close>, nothing is put in front of it, and the target is the host
  (less one trailing slash) followed by the sub-path and the query string. The host
  \<open>httpserver.com\<close> is forwarded to as \<open>httpserver.com/x\<close>, which starts with no scheme.
\<close>

theorem host_starting_with_http_gets_no_scheme:
  assumes "params_prefix req = Some p" and "p \<noteq> []"
    and "findByPrefix g p = Inr (Some a)" and "app_host a = Some h" and "h \<noteq> []"
    and "acl_isAllowed g (user_username req) (p @ params_0 req) (toLowerCase (req_method req))
           = Inr True"
    and "startsWith h ''http''"
  shows "proxied (snd (proxy_route g req)) =
     [(if endsWith h ''/'' then take (length h - 1) h else h) @ params_0 req
        @ (case parsedUrl_search req of None \<Rightarrow> [] | Some q \<Rightarrow> q)]"
  using assms by (simp add: proxy_route_resolved proxied_forward normalize_host_def)

theorem host_starting_with_http_example:
  "proxied (snd (proxy_route (test_gateway test_rbac reachable)
      (proxy_request ''GET'' ''plain'' ''/x'' None ''tester_user'')))
     = [''httpserver.com/x'']
   \<and> \<not> startsWith ''httpserver.com/x'' ''http://''"
proof -
  let ?g = "test_gateway test_rbac reachable"
  let ?req = "proxy_request ''GET'' ''plain'' ''/x'' None ''tester_user''"
  have prefix: "params_prefix ?req = Some ''plain''"
    by (simp add: proxy_request_def)
  have host: "app_host httpserver_app = Some ''httpserver.com''"
    by (simp add: httpserver_app_def)
  have allowed: "acl_isAllowed ?g (user_username ?req) (''plain'' @ params_0 ?req)
      (toLowerCase (req_method ?req)) = Inr True"
    by code_simp
  have starts: "startsWith ''httpserver.com'' ''http''"
    by (simp add: startsWith_def)
  from host_starting_with_http_gets_no_scheme
    [OF prefix _ find_httpserver host _ allowed starts]
  show ?thesis
    by (simp add: proxy_request_def startsWith_def endsWith_def)
qed

section \<open>Ancestor grants in the RBAC engine\<close>

lemma path_ancestor_decompose:
  assumes "path_ancestor A R"
  obtains rest where "R = A @ CHR ''/'' # rest"
proof -
  from assms have "take (Suc (length A)) R = A @ ''/''"
    by (simp add: path_ancestor_def)
  then have "R = (A @ ''/'') @ drop (Suc (length A)) R"
    by (metis append_take_drop_id)
  then show ?thesis
    using that by simp
qed

lemma path_ancestor_append: "A \<noteq> [] \<Longrightarrow> path_ancestor A (A @ CHR ''/'' # rest)"
  by (simp add: path_ancestor_def)

lemma strip_last_segment_below:
  "strip_last_segment (A @ CHR ''/'' # rest) =
     (if CHR ''/'' \<in> set rest then A @ CHR ''/'' # strip_last_segment rest else A)"
proof (cases "CHR ''/'' \<in> set rest")
  case True
  then obtain c cs where tail: "dropWhile (\<lambda>c. c \<noteq> CHR ''/'') (rev rest) = c # cs"
    by (cases "dropWhile (\<lambda>c. c \<noteq> CHR ''/'') (rev rest)") auto
  from True have "dropWhile (\<lambda>c. c \<noteq> CHR ''/'') (rev (A @ CHR ''/'' # rest)) =
      dropWhile (\<lambda>c. c \<noteq> CHR ''/'') (rev rest) @ CHR ''/'' # rev A"
    by simp
  with True tail show ?thesis
    by (simp add: strip_last_segment_def)
next
  case False
  then have "dropWhile (\<lambda>c. c \<noteq> CHR ''/'') (rev rest @ CHR ''/'' # rev A) =
      dropWhile (\<lambda>c. c \<noteq> CHR ''/'') (CHR ''/'' # rev A)"
    by (intro dropWhile_append2) auto
  with False show ?thesis
    by (simp add: strip_last_segment_def)
qed

lemma strip_last_segment_ancestor:
  assumes "path_ancestor A R"
  shows "strip_last_segment R = A \<or> path_ancestor A (strip_last_segment R)"
proof -
  from assms obtain rest where R: "R = A @ CHR ''/'' # rest"
    by (rule path_ancestor_decompose)
  from assms have "A \<noteq> []"
    by (simp add: path_ancestor_def)
  then show ?thesis
    unfolding R strip_last_segment_below by (simp add: path_ancestor_append)
qed

lemma hierarchical_match_ancestor:
  "A \<in> set patterns \<Longrightarrow> A \<noteq> [] \<Longrightarrow> R = A \<or> path_ancestor A R
     \<Longrightarrow> hierarchical_match patterns R"
proof (induction patterns R rule: hierarchical_match.induct)
  case (1 patterns path)
  show ?case
  proof (cases "path \<in> set patterns")
    case True
    then show ?thesis
      by (subst hierarchical_match.simps) simp
  next
    case False
    with "1.prems" have "path_ancestor A path"
      by auto
    then have next_step: "strip_last_segment path = A \<or> path_ancestor A (strip_last_segment path)"
      by (rule strip_last_segment_ancestor)
    with "1.prems"(2) have nonempty: "strip_last_segment path \<noteq> []"
      by (auto simp: path_ancestor_def)
    have "hierarchical_match patterns (strip_last_segment path)"
      using "1.IH" [OF False refl nonempty "1.prems"(1,2) next_step] .
    with False nonempty show ?thesis
      by (subst hierarchical_match.simps) (simp add: Let_def)
  qed
qed

lemma permission_granted_member:
  "action \<in> set permissions \<Longrightarrow> permission_granted action permissions"
  by (auto simp: permission_granted_def)

text \<open>
  C6. \<open>isAllowed\<close> is monotonic under ancestor grants: when a role has a rule that grants
  \<open>action\<close> on the path \<open>A\<close>, and \<open>A\<close> is a path ancestor of the resource \<open>R\<close>, then assigning
  that role to a user succeeds and \<open>isAllowed\<close> answers allow for that user, \<open>R\<close> and
  \<open>action\<close>.
\<close>

theorem ancestor_grant_allows_descendants:
  assumes "role_rules e role = Some rules" and "rule \<in> set rules"
    and "A \<in> set (rule_resources rule)" and "action \<in> set (rule_permissions rule)"
    and "path_ancestor A R"
  shows "\<exists>e'. assignRoles e userId [role] = Inr e' \<and> isAllowed e' userId R action"
proof -
  from assms(5) have "A \<noteq> []"
    by (simp add: path_ancestor_def)
  with assms(3,5) have "hierarchical_match (rule_resources rule) R"
    using hierarchical_match_ancestor [of A "rule_resources rule" R] by blast
  with assms(4) have "rule_matches rule R action"
    by (simp add: rule_matches_def permission_granted_member)
  with assms(2) have rules: "list_ex (\<lambda>rule. rule_matches rule R action) rules"
    by (auto simp: list_ex_iff)
  define e' where "e' = e\<lparr>user_roles := (user_roles e)
      (userId := user_roles e userId
         @ filter (\<lambda>name. name \<notin> set (user_roles e userId)) (remdups [role]))\<rparr>"
  have assigned: "assignRoles e userId [role] = Inr e'"
    using assms(1) by (simp add: assignRoles_def e'_def)
  have "role \<in> set (user_roles e' userId)"
    by (auto simp: e'_def)
  moreover have "role_rules e' role = Some rules"
    using assms(1) by (simp add: e'_def)
  moreover note rules
  ultimately have "isAllowed e' userId R action"
    unfolding isAllowed_def list_ex_iff by (intro bexI [of _ role]) simp_all
  with assigned show ?thesis
    by blast
qed

theorem ancestor_grant_example:
  "(case assignRoles test_rbac ''user_asd'' [''tester''] of
      Inl err \<Rightarrow> False
    | Inr e' \<Rightarrow> isAllowed e' ''user_asd'' ''prefix/a/b/c'' ''get'')
   \<and> \<not> isAllowed test_rbac ''user_asd'' ''prefix/a/b/c'' ''get''"
proof -
  have rules: "role_rules test_rbac ''tester'' =
      Some [\<lparr>rule_resources = [''prefix/a'', ''plain'', ''gleaner/a''],
             rule_permissions = [''get'']\<rparr>]"
    by (simp add: test_rbac_def)
  have anc: "path_ancestor ''prefix/a'' ''prefix/a/b/c''"
    by (simp add: path_ancestor_def)
  have before: "\<not> isAllowed test_rbac ''user_asd'' ''prefix/a/b/c'' ''get''"
    by code_simp
  from ancestor_grant_allows_descendants [OF rules _ _ _ anc, of _ "''get''" "''user_asd''"]
  obtain e' where "assignRoles test_rbac ''user_asd'' [''tester''] = Inr e'"
    and "isAllowed e' ''user_asd'' ''prefix/a/b/c'' ''get''"
    by auto
  with before show ?thesis
    by simp
qed

section \<open>Registration\<close>

lemma prefix_resources_from:
  "i \<le> length resources \<Longrightarrow>
     prefix_resources prefix i resources =
       take i resources @ map (\<lambda>resource. prefix @ resource) (drop i resources)"
proof (induction prefix i resources rule: prefix_resources.induct)
  case (1 prefix i resources)
  show ?case
  proof (cases "i < length resources")
    case True
    from "1.IH" [OF True] True
    have "prefix_resources prefix (i + 1) (resources[i := prefix @ resources ! i]) =
        take (i + 1) (resources[i := prefix @ resources ! i])
          @ map (\<lambda>resource. prefix @ resource) (drop (i + 1) (resources[i := prefix @ resources ! i]))"
      by simp
    also have "take (i + 1) (resources[i := prefix @ resources ! i]) =
        take i resources @ [prefix @ resources ! i]"
      using True by (simp add: take_Suc_conv_app_nth)
    also have "drop (i + 1) (resources[i := prefix @ resources ! i]) = drop (i + 1) resources"
      by simp
    finally have "prefix_resources prefix (i + 1) (resources[i := prefix @ resources ! i]) =
        take i resources @ map (\<lambda>resource. prefix @ resource) (drop i resources)"
      using True by (simp add: Cons_nth_drop_Suc [symmetric])
    with True show ?thesis
      by (subst prefix_resources.simps) simp
  next
    case False
    with "1.prems" show ?thesis
      by (subst prefix_resources.simps) simp
  qed
qed

lemma prefix_resources_all:
  "prefix_resources prefix 0 resources = map (\<lambda>resource. prefix @ resource) resources"
  by (simp add: prefix_resources_from)

lemma forEach_allows_arrays:
  "list_all (\<lambda>allow. case allow_resources allow of Arr resources \<Rightarrow> True | Str resource \<Rightarrow> False)
      allows
     \<Longrightarrow> forEach_allows prefix allows = Inr (map (prefixed_allow prefix) allows)"
proof (induction allows)
  case Nil
  then show ?case by simp
next
  case (Cons allow allows)
  then have "prefix_allow prefix allow = Inr (prefixed_allow prefix allow)"
    by (cases "allow_resources allow")
       (simp_all add: prefix_allow_def prefixed_allow_def prefix_resources_all)
  with Cons show ?case
    by simp
qed

lemma forEach_roles_arrays:
  "array_resources roles \<Longrightarrow> forEach_roles prefix roles = Inr (prefixed_roles prefix roles)"
proof (induction roles)
  case Nil
  then show ?case by (simp add: prefixed_roles_def)
next
  case (Cons role roles)
  then show ?case
    by (simp add: array_resources_def prefixed_roles_def forEach_allows_arrays)
qed

lemma resource_strings_prefixed:
  "resource_strings (prefixed_roles prefix roles) =
     map (\<lambda>resource. prefix @ resource) (resource_strings roles)"
proof -
  have allow: "(case allow_resources (prefixed_allow prefix allow) of
        Arr resources \<Rightarrow> resources | Str resource \<Rightarrow> [resource]) =
      map (\<lambda>resource. prefix @ resource)
        (case allow_resources allow of Arr resources \<Rightarrow> resources | Str resource \<Rightarrow> [resource])"
    for allow
    by (cases "allow_resources allow") (simp_all add: prefixed_allow_def)
  show ?thesis
    by (simp add: resource_strings_def prefixed_roles_def map_concat comp_def allow)
qed


lemma created_post_applications:
  assumes "post_prefix body = Some p" and "p \<noteq> []"
    and "post_host body = Some h" and "h \<noteq> []"
  shows "created (snd (post_applications r body)) = [(p, h)]"
  using assms
  by (simp add: post_applications_def truthy_def Let_def
      split: sum.split option.split)

lemma answered_post_applications:
  assumes "post_prefix body = Some p" and "p \<noteq> []"
    and "post_host body = Some h" and "h \<noteq> []"
    and "fst (post_applications r body) = Json res"
  shows "\<exists>a. model_create r p h = Inr a \<and> sum_id res = app_id a \<and> sum_prefix res = app_prefix a
           \<and> sum_host res = app_host a \<and> sum_timeCreated res = app_timeCreated a"
  using assms
  by (auto simp: post_applications_def truthy_def Let_def
      split: sum.splits option.splits)

lemma allowed_roles_post_applications:
  assumes "post_prefix body = Some p" and "p \<noteq> []"
    and "post_host body = Some h" and "h \<noteq> []"
    and "model_create r p h = Inr a"
    and "post_roles body = Some roles" and "forEach_roles p roles = Inr roles'"
  shows "allowed_roles (snd (post_applications r body)) = [roles']"
  using assms
  by (simp add: post_applications_def truthy_def Let_def split: option.split)

text \<open>
  The registration with array resources: the role array handed to the ACL's \<open>allow\<close> is the
  submitted one with every resource replaced by the prefix immediately followed by that
  resource, and for every submitted resource \<open>s\<close> the string \<open>prefix + s\<close> is the resource of
  the ACL query the dispatcher makes for a request with that prefix and the sub-path \<open>s\<close>.
\<close>

lemma registration_of_array_resources:
  assumes "post_prefix body = Some p" and "p \<noteq> []"
    and "post_host body = Some h" and "h \<noteq> []"
    and "model_create r p h = Inr a"
    and "post_roles body = Some roles" and "array_resources roles"
  shows "allowed_roles (snd (post_applications r body)) = [prefixed_roles p roles]
    \<and> (\<forall>s \<in> set (resource_strings roles).
          p @ s \<in> set (resource_strings (prefixed_roles p roles))
          \<and> (\<forall>(g::gateway) (req::request) (a'::application) h'.
                params_prefix req = Some p \<longrightarrow> params_0 req = s \<longrightarrow>
                findByPrefix g p = Inr (Some a') \<longrightarrow> app_host a' = Some h' \<longrightarrow> h' \<noteq> [] \<longrightarrow>
                map (\<lambda>query. fst (snd query)) (acl_queries (snd (proxy_route g req))) = [p @ s]))"
proof (intro conjI ballI allI impI)
  from assms(7) have "forEach_roles p roles = Inr (prefixed_roles p roles)"
    by (rule forEach_roles_arrays)
  with assms(1-6) show "allowed_roles (snd (post_applications r body)) = [prefixed_roles p roles]"
    by (rule allowed_roles_post_applications)
next
  fix s assume "s \<in> set (resource_strings roles)"
  then show "p @ s \<in> set (resource_strings (prefixed_roles p roles))"
    by (simp add: resource_strings_prefixed)
next
  fix s and g :: gateway and req :: request and a' :: application and h'
  assume "params_prefix req = Some p" and "params_0 req = s"
    and "findByPrefix g p = Inr (Some a')" and "app_host a' = Some h'" and "h' \<noteq> []"
  with assms(2) show
    "map (\<lambda>query. fst (snd query)) (acl_queries (snd (proxy_route g req))) = [p @ s]"
    by (simp add: acl_queries_resolved)
qed

lemma registration_of_gleanerRoles:
  "allowed_roles (snd (post_applications (test_registry []) gleaner_appData)) =
     [[\<lparr>role_roles = ''gleanerUser'',
        role_allows = [\<lparr>allow_resources = Arr [''gleaner/route1''],
                        allow_permissions = [''post'', ''get'', ''delete'', ''put'']\<rparr>]\<rparr>]]"
  by (simp add: post_applications_def test_registry_def collection_create_def
      gleaner_appData_def gleanerRoles_def truthy_def prefix_allow_def prefix_resources_all Let_def)

text \<open>
  C10. The claim has every resource string of every allow entry stored as the prefix
  followed by that resource, which is the key the dispatcher asks the ACL for. The route
  does so for resources given as an array and misses the resources given as one string: for
  the role \<open>gleanerUser\<close> with the resources \<open>"/route1"\<close>, the loop's assignment to a character
  of the string throws a \<open>TypeError\<close> once the application is created, \<open>allow\<close> is never
  called, and the rule for \<open>gleaner/route1\<close> that the claim expects is stored nowhere.
\<close>

theorem registration_with_string_resources_throws:
  "fst (post_applications (test_registry []) string_appData) = Throws ''TypeError''
   \<and> created (snd (post_applications (test_registry []) string_appData)) =
       [(''gleaner'', ''localhost:3309'')]
   \<and> allowed_roles (snd (post_applications (test_registry []) string_appData)) = []
   \<and> resource_strings (prefixed_roles ''gleaner'' stringRoles) = [''gleaner/route1'']"
  by (simp add: post_applications_def test_registry_def collection_create_def
      string_appData_def stringRoles_def truthy_def prefix_allow_def Let_def
      resource_strings_def prefixed_roles_def prefixed_allow_def)

text \<open>
  C3, as stated, fails: the registration of \<open>gleaner\<close> at \<open>localhost:3309\<close> hands that host to
  the store and answers with it, as the repository's test requires, and the host has no
  scheme.
\<close>

theorem registration_keeps_the_host_as_submitted:
  "test_should_POST_an_application_correctly (test_registry [])
   \<and> fst (post_applications (test_registry []) gleaner_appData) =
       Json \<lparr>sum_id = ''a9'', sum_prefix = ''gleaner'', sum_host = Some ''localhost:3309'',
             sum_timeCreated = 9\<rparr>
   \<and> created (snd (post_applications (test_registry []) gleaner_appData)) =
       [(''gleaner'', ''localhost:3309'')]
   \<and> \<not> startsWith ''localhost:3309'' ''http''"
  by (simp add: test_should_POST_an_application_correctly_def post_applications_def
      test_registry_def collection_create_def gleaner_appData_def gleanerRoles_def truthy_def
      prefix_allow_def prefix_resources_all startsWith_def Let_def)

text \<open>
  C3, amended. The registration hands the submitted host to the store unchanged and answers
  with the host of the stored application. The stored host is normalized by the dispatcher
  on each proxied request instead: \<open>http://\<close> is put in front of the stored host unless its
  first four characters are \<open>http\<close>, then exactly one trailing slash is cut, and the result,
  followed by the sub-path and the query string, is the target. The host so forwarded to
  always starts with \<open>http\<close> and, unless the stored host is \<open>/\<close> or ends with two slashes, has
  no trailing slash.
\<close>

theorem registration_hands_host_over_and_dispatcher_normalizes:
  assumes "post_prefix body = Some p" and "p \<noteq> []"
    and "post_host body = Some h" and "h \<noteq> []"
    and "fst (post_applications r body) = Json res"
    and "model_create r p h = Inr a" and "findByPrefix g p = Inr (Some a)"
    and "app_host a = Some s" and "s \<noteq> []"
    and "params_prefix req = Some p"
    and "acl_isAllowed g (user_username req) (p @ params_0 req) (toLowerCase (req_method req))
           = Inr True"
  shows "let host = (if take 4 s = ''http'' then s else ''http://'' @ s);
             forwarding = (if last host = CHR ''/'' then butlast host else host)
         in created (snd (post_applications r body)) = [(p, h)]
            \<and> sum_host res = Some s
            \<and> proxied (snd (proxy_route g req)) =
                [forwarding @ params_0 req
                   @ (case parsedUrl_search req of None \<Rightarrow> [] | Some q \<Rightarrow> q)]
            \<and> take 4 forwarding = ''http''
            \<and> (s \<noteq> ''/'' \<and> \<not> (last s = CHR ''/'' \<and> last (butlast s) = CHR ''/'') \<longrightarrow>
                 last forwarding \<noteq> CHR ''/'')"
proof -
  define host where "host = (if take 4 s = ''http'' then s else ''http://'' @ s)"
  define forwarding where "forwarding = (if last host = CHR ''/'' then butlast host else host)"
  from assms(9) have normal: "normalize_host s = forwarding"
    by (simp add: normalize_host_written_out Let_def host_def forwarding_def)
  from assms(1-4) have handed: "created (snd (post_applications r body)) = [(p, h)]"
    by (rule created_post_applications)
  from answered_post_applications [OF assms(1-5)] assms(6,8)
  have answered: "sum_host res = Some s"
    by auto
  from assms(10,2,7,8,9,11) have target: "proxied (snd (proxy_route g req)) =
      [forwarding @ params_0 req
         @ (case parsedUrl_search req of None \<Rightarrow> [] | Some q \<Rightarrow> q)]"
    by (simp add: proxy_route_resolved proxied_forward normal)
  from normalize_host_starts_with_http [of s] have scheme: "take 4 forwarding = ''http''"
    by (simp only: normal startsWith_http)
  have slash: "last forwarding \<noteq> CHR ''/''"
    if "s \<noteq> ''/'' \<and> \<not> (last s = CHR ''/'' \<and> last (butlast s) = CHR ''/'')"
  proof -
    from that have "\<not> endsWith s ''//''"
      by (auto simp: endsWith_iff butlast_append)
    with that assms(9) have "\<not> endsWith (normalize_host s) ''/''"
      by (simp add: normalize_host_no_trailing_slash)
    moreover from scheme have "forwarding \<noteq> []"
      by auto
    ultimately show ?thesis
      by (simp add: normal endsWith_slash)
  qed
  from handed answered target scheme slash show ?thesis
    unfolding Let_def host_def [symmetric] forwarding_def [symmetric] by blast
qed

theorem registration_hands_host_over_example:
  "created (snd (post_applications (test_registry []) gleaner_appData)) =
     [(''gleaner'', ''localhost:3309'')]
   \<and> model_create (test_registry []) ''gleaner'' ''localhost:3309'' =
       Inr \<lparr>app_id = ''a9'', app_name = None, app_prefix = ''gleaner'',
            app_host = Some ''localhost:3309'', app_timeCreated = 9\<rparr>
   \<and> proxied (snd (proxy_route
        (gateway_of [\<lparr>app_id = ''a9'', app_name = None, app_prefix = ''gleaner'',
                      app_host = Some ''localhost:3309'', app_timeCreated = 9\<rparr>]
           test_rbac reachable)
        (proxy_request ''GET'' ''gleaner'' ''/route1'' None ''user_asd'')))
     = [''http://'' @ ''localhost:3309'' @ ''/route1'']"
proof -
  let ?r = "test_registry []"
  let ?a = "\<lparr>app_id = ''a9'', app_name = None, app_prefix = ''gleaner'',
      app_host = Some ''localhost:3309'', app_timeCreated = 9\<rparr>"
  let ?g = "gateway_of [?a] test_rbac reachable"
  let ?req = "proxy_request ''GET'' ''gleaner'' ''/route1'' None ''user_asd''"
  have prefix: "post_prefix gleaner_appData = Some ''gleaner''"
    and host: "post_host gleaner_appData = Some ''localhost:3309''"
    by (simp_all add: gleaner_appData_def)
  have answer: "fst (post_applications ?r gleaner_appData) =
      Json \<lparr>sum_id = ''a9'', sum_prefix = ''gleaner'', sum_host = Some ''localhost:3309'',
            sum_timeCreated = 9\<rparr>"
    by (simp add: post_applications_def test_registry_def collection_create_def
        gleaner_appData_def gleanerRoles_def truthy_def prefix_allow_def prefix_resources_all
        Let_def)
  have made: "model_create ?r ''gleaner'' ''localhost:3309'' = Inr ?a"
    by (simp add: test_registry_def collection_create_def)
  have found: "findByPrefix ?g ''gleaner'' = Inr (Some ?a)"
    by (simp add: gateway_of_def collection_findByPrefix_def)
  have stored: "app_host ?a = Some ''localhost:3309''"
    by simp
  have request: "params_prefix ?req = Some ''gleaner''"
    by (simp add: proxy_request_def)
  have "acl_isAllowed ?g ''user_asd'' ''gleaner/route1'' ''get'' = Inr True"
    unfolding gateway_of_def by simp code_simp
  then have allowed: "acl_isAllowed ?g (user_username ?req) (''gleaner'' @ params_0 ?req)
      (toLowerCase (req_method ?req)) = Inr True"
    by (simp add: proxy_request_def lower_GET)
  from registration_hands_host_over_and_dispatcher_normalizes
    [OF prefix _ host _ answer made found stored _ request allowed]
  show ?thesis
    by (simp add: made proxy_request_def)
qed

section \<open>Update\<close>

text \<open>
  C7. An update with an application id asks the store once, with the id, the truthy fields
  of the body (a changed prefix or host among them) and validators switched on. When the
  store finds no application with the id, the route fails with status 400; when the store
  rejects the update (a validation or uniqueness error), the route fails with that error
  under status 403; otherwise it answers with the updated application.
\<close>

theorem update_maps_store_answers_to_statuses:
  assumes "put_applicationId req = Some i" and "i \<noteq> []"
  shows "snd (put_application r req) =
           [FindOneAndUpdate i (put_update req) \<lparr>opt_new = True, opt_runValidators = True\<rparr>]
    \<and> set_prefix (put_update req) = (if truthy (put_prefix req) then put_prefix req else None)
    \<and> set_host (put_update req) = (if truthy (put_host req) then put_host req else None)
    \<and> (model_findOneAndUpdate r i (put_update req) \<lparr>opt_new = True, opt_runValidators = True\<rparr>
          = Inr None \<longrightarrow>
        fst (put_application r req) =
          Next \<lparr>message = ''No application with the given application id exists.'',
                status = Some 400\<rparr>)
    \<and> (\<forall>err. model_findOneAndUpdate r i (put_update req)
                 \<lparr>opt_new = True, opt_runValidators = True\<rparr> = Inl err \<longrightarrow>
          fst (put_application r req) = Next (err\<lparr>status := Some 403\<rparr>))
    \<and> (\<forall>a. model_findOneAndUpdate r i (put_update req)
               \<lparr>opt_new = True, opt_runValidators = True\<rparr> = Inr (Some a) \<longrightarrow>
          fst (put_application r req) = Json a)"
proof -
  let ?options = "\<lparr>opt_new = True, opt_runValidators = True\<rparr>"
  let ?call = "FindOneAndUpdate i (put_update req) ?options"
  from assms have run: "put_application r req =
      (case model_findOneAndUpdate r i (put_update req) ?options of
         Inl err \<Rightarrow> (Next (err\<lparr>status := Some 403\<rparr>), [?call])
       | Inr None \<Rightarrow>
           (Next \<lparr>message = ''No application with the given application id exists.'',
                  status = Some 400\<rparr>, [?call])
       | Inr (Some a) \<Rightarrow> (Json a, [?call]))"
    by (simp add: put_application_def truthy_def Let_def)
  have effects: "snd (put_application r req) = [?call]"
    unfolding run by (simp split: sum.split option.split)
  have fields: "set_prefix (put_update req) =
        (if truthy (put_prefix req) then put_prefix req else None)"
      "set_host (put_update req) = (if truthy (put_host req) then put_host req else None)"
    by (simp_all add: put_update_def)
  have absent: "model_findOneAndUpdate r i (put_update req) ?options = Inr None \<longrightarrow>
      fst (put_application r req) =
        Next \<lparr>message = ''No application with the given application id exists.'',
              status = Some 400\<rparr>"
    unfolding run by simp
  have rejected: "\<forall>err. model_findOneAndUpdate r i (put_update req) ?options = Inl err \<longrightarrow>
      fst (put_application r req) = Next (err\<lparr>status := Some 403\<rparr>)"
    unfolding run by simp
  have updated: "\<forall>a. model_findOneAndUpdate r i (put_update req) ?options = Inr (Some a) \<longrightarrow>
      fst (put_application r req) = Json a"
    unfolding run by simp
  from effects fields absent rejected updated show ?thesis
    by (intro conjI)
qed

theorem update_examples:
  "fst (put_application (test_registry test_docs)
      \<lparr>put_applicationId = Some ''a7'', put_name = None, put_prefix = Some ''new_prefix'',
       put_host = None\<rparr>)
     = Next \<lparr>message = ''No application with the given application id exists.'',
             status = Some 400\<rparr>
   \<and> fst (put_application (test_registry test_docs)
      \<lparr>put_applicationId = Some ''a2'', put_name = None, put_prefix = Some ''gleaner'',
       put_host = None\<rparr>)
     = Next \<lparr>message = ''duplicate key'', status = Some 403\<rparr>
   \<and> fst (put_application (test_registry test_docs)
      \<lparr>put_applicationId = Some ''a2'', put_name = None, put_prefix = None,
       put_host = Some ''invalid_url''\<rparr>)
     = Next \<lparr>message = ''Validation failed'', status = Some 403\<rparr>
   \<and> fst (put_application (test_registry test_docs)
      \<lparr>put_applicationId = Some ''a2'', put_name = None, put_prefix = Some ''new_prefix'',
       put_host = Some ''http://myurl22.com''\<rparr>)
     = Json \<lparr>app_id = ''a2'', app_name = None, app_prefix = ''new_prefix'',
             app_host = Some ''http://myurl22.com'', app_timeCreated = 2\<rparr>"
proof -
  let ?r = "test_registry test_docs"
  let ?options = "\<lparr>opt_new = True, opt_runValidators = True\<rparr>"
  let ?absent = "\<lparr>put_applicationId = Some ''a7'', put_name = None,
      put_prefix = Some ''new_prefix'', put_host = None\<rparr>"
  let ?duplicate = "\<lparr>put_applicationId = Some ''a2'', put_name = None,
      put_prefix = Some ''gleaner'', put_host = None\<rparr>"
  let ?invalid = "\<lparr>put_applicationId = Some ''a2'', put_name = None, put_prefix = None,
      put_host = Some ''invalid_url''\<rparr>"
  let ?valid = "\<lparr>put_applicationId = Some ''a2'', put_name = None,
      put_prefix = Some ''new_prefix'', put_host = Some ''http://myurl22.com''\<rparr>"
  have absent: "model_findOneAndUpdate ?r ''a7'' (put_update ?absent) ?options = Inr None"
    by code_simp
  have duplicate: "model_findOneAndUpdate ?r ''a2'' (put_update ?duplicate) ?options =
      Inl \<lparr>message = ''duplicate key'', status = None\<rparr>"
    by code_simp
  have invalid: "model_findOneAndUpdate ?r ''a2'' (put_update ?invalid) ?options =
      Inl \<lparr>message = ''Validation failed'', status = None\<rparr>"
    by code_simp
  have valid: "model_findOneAndUpdate ?r ''a2'' (put_update ?valid) ?options =
      Inr (Some \<lparr>app_id = ''a2'', app_name = None, app_prefix = ''new_prefix'',
                 app_host = Some ''http://myurl22.com'', app_timeCreated = 2\<rparr>)"
    by code_simp
  from update_maps_store_answers_to_statuses [of ?absent "''a7''" ?r] absent
  have "fst (put_application ?r ?absent) =
      Next \<lparr>message = ''No application with the given application id exists.'',
            status = Some 400\<rparr>"
    by simp
  moreover from update_maps_store_answers_to_statuses [of ?duplicate "''a2''" ?r] duplicate
  have "fst (put_application ?r ?duplicate) =
      Next \<lparr>message = ''duplicate key'', status = Some 403\<rparr>"
    by simp
  moreover from update_maps_store_answers_to_statuses [of ?invalid "''a2''" ?r] invalid
  have "fst (put_application ?r ?invalid) =
      Next \<lparr>message = ''Validation failed'', status = Some 403\<rparr>"
    by simp
  moreover from update_maps_store_answers_to_statuses [of ?valid "''a2''" ?r] valid
  have "fst (put_application ?r ?valid) =
      Json \<lparr>app_id = ''a2'', app_name = None, app_prefix = ''new_prefix'',
            app_host = Some ''http://myurl22.com'', app_timeCreated = 2\<rparr>"
    by simp
  ultimately show ?thesis
    by (intro conjI)
qed

end
